theory Spec2Isabelle
  imports Main
begin

section \<open>Data model of My\_Alarm.c\<close>

text \<open>
  The C structure \<^verbatim>\<open>alarm_t\<close> has the fields \<^verbatim>\<open>link\<close>, \<^verbatim>\<open>seconds\<close>,
  \<^verbatim>\<open>time\<close> and \<^verbatim>\<open>message\<close>. The chain of \<^verbatim>\<open>link\<close> pointers that starts at
  the global \<^verbatim>\<open>alarm_list\<close> is represented by a HOL list of records in link order
  (\<^verbatim>\<open>NULL\<close> is the empty list), so the record keeps the three data fields.
  \<^verbatim>\<open>time_t\<close> and \<^verbatim>\<open>int\<close> values are represented by their signed
  mathematical value: the program only adds once (\<^verbatim>\<open>time (NULL) + alarm->seconds\<close>) and
  otherwise compares.
\<close>

record alarm_t =
  seconds :: int
  time :: int
  message :: string

text \<open>The array \<^verbatim>\<open>char message[64]\<close> of the structure.\<close>

definition message_size :: nat where
  "message_size = 64"

text \<open>The two threads that use \<^verbatim>\<open>alarm_mutex\<close>.\<close>

datatype tid = Main_thread | Alarm_thread

text \<open>
  The globals: \<^verbatim>\<open>alarm_list\<close>, \<^verbatim>\<open>alarm_done\<close> and \<^verbatim>\<open>alarm_mutex\<close> (its
  owner, \<open>None\<close> when unlocked).
\<close>

record globals =
  alarm_list :: "alarm_t list"
  alarm_done :: int
  alarm_mutex :: "tid option"

definition initial_globals :: globals where
  "initial_globals = \<lparr>alarm_list = [], alarm_done = 0, alarm_mutex = None\<rparr>"

text \<open>
  What a thread does to the outside, in program order: the calls of \<^verbatim>\<open>printf\<close> and
  \<^verbatim>\<open>fprintf\<close> with their arguments, \<^verbatim>\<open>sleep\<close>, the mutex calls, \<^verbatim>\<open>malloc\<close>
  and \<^verbatim>\<open>free\<close>, \<^verbatim>\<open>pthread_create\<close> of a worker for a record,
  \<^verbatim>\<open>pthread_exit\<close>, and \<^verbatim>\<open>err_abort\<close>/\<^verbatim>\<open>errno_abort\<close> with their text.
\<close>

datatype event =
    Prompt
  | Bad_command
  | Alarm_Recieved int int string
  | Alarm_Retrieved int int string
  | Alarm_Tick int string
  | Alarm_Expired int int string
  | Sleep nat
  | Mutex_lock
  | Mutex_unlock
  | Malloc
  | Free
  | Create_individual alarm_t
  | Pthread_exit
  | Abort string

text \<open>How an iteration of a thread's \<^verbatim>\<open>while (1)\<close> loop ends.\<close>

datatype status =
    Running
  | Exited
  | Aborted
  | Blocked
  | Segfault

text \<open>
  What the environment answers during one iteration: the values of the calls of
  \<^verbatim>\<open>time (NULL)\<close> (the main thread calls it twice in its critical section), the
  status codes of the pthread calls, and the result of \<^verbatim>\<open>malloc\<close>: \<open>None\<close>
  for \<^verbatim>\<open>NULL\<close>, otherwise the content of the new block, which the program has not
  initialised.
\<close>

record env =
  now :: int
  now2 :: int
  lock_status :: int
  unlock_status :: int
  create_status :: int
  malloc :: "alarm_t option"

text \<open>An iteration in which no pthread call reports an error.\<close>

definition pthread_ok :: "env \<Rightarrow> bool" where
  "pthread_ok e = (lock_status e = 0 \<and> unlock_status e = 0 \<and> create_status e = 0)"

text \<open>
  The environment in which \<^verbatim>\<open>time (NULL)\<close> is \<open>t\<close>, no call fails and
  \<^verbatim>\<open>malloc\<close> returns a zeroed block.
\<close>

definition env_at :: "int \<Rightarrow> env" where
  "env_at t =
     \<lparr>now = t, now2 = t, lock_status = 0, unlock_status = 0, create_status = 0,
      malloc = Some \<lparr>seconds = 0, time = 0, message = []\<rparr>\<rparr>"

section \<open>The sorted insertion of \<^verbatim>\<open>main\<close>\<close>

text \<open>
  Lines 186 to 206. \<^verbatim>\<open>last\<close> points to the link cell in front of \<^verbatim>\<open>next\<close>;
  the records the loop has walked past stay in front of that cell. The loop stops at the
  first \<^verbatim>\<open>next\<close> with \<^verbatim>\<open>next->time >= alarm->time\<close> and stores the new record
  into \<^verbatim>\<open>*last\<close>, with \<^verbatim>\<open>next\<close> as its link; when \<^verbatim>\<open>next\<close> reaches
  \<^verbatim>\<open>NULL\<close> the record is stored into the last link cell.
\<close>

fun insert_alarm :: "alarm_t \<Rightarrow> alarm_t list \<Rightarrow> alarm_t list" where
  "insert_alarm alarm [] = [alarm]"
| "insert_alarm alarm (next # link) =
     (if time next \<ge> time alarm then alarm # next # link
      else next # insert_alarm alarm link)"

section \<open>Reading and parsing a line\<close>

text \<open>
  \<^verbatim>\<open>fgets (line, sizeof (line), stdin)\<close> with \<^verbatim>\<open>char line[128]\<close>: at most 127
  characters are read, and reading stops after a newline. The result is \<^verbatim>\<open>NULL\<close>
  (here \<open>None\<close>) when the input is at its end before any character was read; otherwise
  the characters read and the rest of the input.
\<close>

definition newline :: char where
  "newline = CHR 0x0A"

definition nul :: char where
  "nul = CHR 0x00"

fun fgets_chars :: "nat \<Rightarrow> string \<Rightarrow> string \<times> string" where
  "fgets_chars 0 inp = ([], inp)"
| "fgets_chars (Suc n) [] = ([], [])"
| "fgets_chars (Suc n) (c # cs) =
     (if c = newline then ([c], cs)
      else (case fgets_chars n cs of (l, r) \<Rightarrow> (c # l, r)))"

definition fgets :: "nat \<Rightarrow> string \<Rightarrow> (string \<times> string) option" where
  "fgets n inp = (if inp = [] then None else Some (fgets_chars (n - 1) inp))"

text \<open>A C string ends at its first NUL character.\<close>

definition c_str :: "string \<Rightarrow> string" where
  "c_str buf = takeWhile (\<lambda>c. c \<noteq> nul) buf"

definition strlen :: "string \<Rightarrow> nat" where
  "strlen buf = length (c_str buf)"

text \<open>
  \<^verbatim>\<open>sscanf (line, "%d %64[^\n]", &alarm->seconds, alarm->message)\<close>, after the C
  standard's \<^verbatim>\<open>fscanf\<close>: \<^verbatim>\<open>%d\<close> skips white space and reads an optional sign and
  decimal digits; the space of the format skips white space; \<^verbatim>\<open>%64[^\n]\<close> reads
  the characters up to a newline, at least one and at most 64, and stores them followed
  by a NUL character. The value is the number of fields stored, or \<^verbatim>\<open>EOF\<close> (\<open>-1\<close>)
  when the string ends before the first field. The program compares this value with 2
  only. C leaves a number outside the range of \<^verbatim>\<open>int\<close> undefined; the GNU C
  library on a 64-bit system converts the digits as \<^verbatim>\<open>strtol\<close> does, which
  clamps to the range of \<^verbatim>\<open>long\<close>, and stores the low 32 bits as the
  \<^verbatim>\<open>int\<close>, and so does the model. When 64 characters are read the NUL
  character falls behind the array \<^verbatim>\<open>message\<close>; the model keeps the 64
  characters as the message. The fields are stored into the record \<open>alarm\<close>; a field that is not stored
  keeps what the record had.
\<close>

definition isspace :: "char \<Rightarrow> bool" where
  "isspace c = (c \<in> set [CHR '' '', CHR 0x09, CHR 0x0A, CHR 0x0B, CHR 0x0C, CHR 0x0D])"

definition isdigit :: "char \<Rightarrow> bool" where
  "isdigit c = (c \<in> set ''0123456789'')"

definition digit_val :: "char \<Rightarrow> int" where
  "digit_val c = of_char c - 48"

definition decimal :: "string \<Rightarrow> int" where
  "decimal ds = foldl (\<lambda>n c. 10 * n + digit_val c) 0 ds"

definition strtol_clamp :: "int \<Rightarrow> int" where
  "strtol_clamp n = max (- (2 ^ 63)) (min (2 ^ 63 - 1) n)"

definition int_of_long :: "int \<Rightarrow> int" where
  "int_of_long n = (n + 2 ^ 31) mod 2 ^ 32 - 2 ^ 31"

definition scan_d :: "string \<Rightarrow> (int \<times> string) option" where
  "scan_d s =
     (let (neg, s1) =
            (case s of
               [] \<Rightarrow> (False, s)
             | c # cs \<Rightarrow>
                 if c = CHR ''-'' then (True, cs)
                 else if c = CHR ''+'' then (False, cs)
                 else (False, s));
          ds = takeWhile isdigit s1
      in if ds = [] then None
         else Some (int_of_long (strtol_clamp (if neg then - decimal ds else decimal ds)),
                    dropWhile isdigit s1))"

definition scan_64 :: "string \<Rightarrow> string" where
  "scan_64 s = take 64 (takeWhile (\<lambda>c. c \<noteq> newline) s)"

definition sscanf_alarm :: "string \<Rightarrow> alarm_t \<Rightarrow> int \<times> alarm_t" where
  "sscanf_alarm line alarm =
     (let s0 = dropWhile isspace (c_str line)
      in if s0 = [] then (- 1, alarm)
         else case scan_d s0 of
                None \<Rightarrow> (0, alarm)
              | Some (n, s1) \<Rightarrow>
                  (let m = scan_64 (dropWhile isspace s1)
                   in if m = [] then (1, alarm\<lparr>seconds := n\<rparr>)
                      else (2, alarm\<lparr>seconds := n, message := m\<rparr>)))"

text \<open>
  The number of bytes \<^verbatim>\<open>sscanf\<close> writes through \<^verbatim>\<open>alarm->message\<close> for a
  stored message: its characters and the terminating NUL.
\<close>

definition message_bytes :: "string \<Rightarrow> nat" where
  "message_bytes m = length m + 1"

section \<open>The mutex\<close>

text \<open>
  \<^verbatim>\<open>pthread_mutex_lock\<close> followed by the test of its status. A non-zero status
  goes to \<^verbatim>\<open>err_abort\<close>; a mutex that another thread owns makes the caller wait
  (\<open>Blocked\<close>); otherwise the caller owns it. \<^verbatim>\<open>pthread_mutex_unlock\<close> likewise.
\<close>

definition mutex_lock :: "tid \<Rightarrow> env \<Rightarrow> globals \<Rightarrow> event list \<times> status \<times> globals" where
  "mutex_lock t e g =
     (if lock_status e \<noteq> 0 then ([Abort ''Lock mutex''], Aborted, g)
      else if alarm_mutex g \<noteq> None then ([], Blocked, g)
      else ([Mutex_lock], Running, g\<lparr>alarm_mutex := Some t\<rparr>))"

definition mutex_unlock :: "env \<Rightarrow> globals \<Rightarrow> event list \<times> status \<times> globals" where
  "mutex_unlock e g =
     (if unlock_status e \<noteq> 0 then ([Abort ''Unlock mutex''], Aborted, g)
      else ([Mutex_unlock], Running, g\<lparr>alarm_mutex := None\<rparr>))"

section \<open>\<^verbatim>\<open>individual_alarm_thread\<close>\<close>

text \<open>
  One iteration of the loop of lines 46 to 63, with the value \<open>t\<close> that
  \<^verbatim>\<open>time (NULL)\<close> returns in it.
\<close>

definition individual_alarm_iter :: "int \<Rightarrow> alarm_t \<Rightarrow> event list \<times> status" where
  "individual_alarm_iter t alarm =
     (if time alarm \<le> t
      then ([Alarm_Expired t (time alarm) (message alarm), Free, Pthread_exit], Exited)
      else ([Alarm_Tick (time alarm) (message alarm), Sleep 1], Running))"

text \<open>
  The loop, run on the successive values of \<^verbatim>\<open>time (NULL)\<close>, one for each iteration.
  When the values run out before the thread has exited it is still \<open>Running\<close>.
\<close>

fun individual_alarm_thread :: "int list \<Rightarrow> alarm_t \<Rightarrow> event list \<times> status" where
  "individual_alarm_thread [] alarm = ([], Running)"
| "individual_alarm_thread (t # ts) alarm =
     (case individual_alarm_iter t alarm of
        (ev, st) \<Rightarrow>
          if st = Running
          then (case individual_alarm_thread ts alarm of (ev', st') \<Rightarrow> (ev @ ev', st'))
          else (ev, st))"

section \<open>\<^verbatim>\<open>alarm_thread\<close>\<close>

text \<open>
  One iteration of the loop of lines 82 to 124. The local \<^verbatim>\<open>sleep_time\<close> is
  assigned in the first branch and read nowhere, so it leaves no trace here. The second
  branch calls \<^verbatim>\<open>pthread_exit\<close> before the unlock of line 121 is reached. The
  \<^verbatim>\<open>else\<close> branch reads \<^verbatim>\<open>alarm->time\<close>: with \<^verbatim>\<open>alarm == NULL\<close> (and
  \<^verbatim>\<open>alarm_done\<close> neither 0 nor 1) that is a null dereference.
\<close>

definition alarm_thread_iter :: "env \<Rightarrow> globals \<Rightarrow> event list \<times> status \<times> globals" where
  "alarm_thread_iter e g =
     (case mutex_lock Alarm_thread e g of
        (ev, st, g1) \<Rightarrow>
          if st \<noteq> Running then (ev, st, g1)
          else
            (case alarm_list g1 of
               [] \<Rightarrow>
                 if alarm_done g1 = 0
                 then (case mutex_unlock e g1 of (ev', r) \<Rightarrow> (ev @ ev', r))
                 else if alarm_done g1 = 1 then (ev @ [Pthread_exit], Exited, g1)
                 else (ev, Segfault, g1)
             | alarm # link \<Rightarrow>
                 (let ev1 = ev @ [Alarm_Retrieved (now e) (time alarm) (message alarm)];
                      g2 = g1\<lparr>alarm_list := link\<rparr>
                  in if create_status e \<noteq> 0
                     then (ev1 @ [Abort ''create individual alarm thread''], Aborted, g2)
                     else (case mutex_unlock e g2 of
                             (ev', r) \<Rightarrow> (ev1 @ [Create_individual alarm] @ ev', r)))))"

text \<open>
  The loop, one environment for each iteration; it stops at the first iteration that
  does not end \<open>Running\<close>.
\<close>

fun alarm_thread :: "env list \<Rightarrow> globals \<Rightarrow> event list \<times> status \<times> globals" where
  "alarm_thread [] g = ([], Running, g)"
| "alarm_thread (e # es) g =
     (case alarm_thread_iter e g of
        (ev, st, g') \<Rightarrow>
          if st = Running
          then (case alarm_thread es g' of (ev', r) \<Rightarrow> (ev @ ev', r))
          else (ev, st, g'))"

section \<open>\<^verbatim>\<open>main\<close>\<close>

text \<open>
  One iteration of the loop of lines 144 to 215 on the unread input \<open>inp\<close>; the result
  has the input that is left. At the end of the input \<^verbatim>\<open>alarm_done\<close> is set and the
  thread exits; no mutex call stands between lines 149 and 153.
\<close>

definition main_iter ::
  "env \<Rightarrow> string \<Rightarrow> globals \<Rightarrow> event list \<times> status \<times> string \<times> globals" where
  "main_iter e inp g =
     (case fgets 128 inp of
        None \<Rightarrow> ([Prompt, Pthread_exit], Exited, inp, g\<lparr>alarm_done := 1\<rparr>)
      | Some (line, rest) \<Rightarrow>
          if strlen line \<le> 1 then ([Prompt], Running, rest, g)
          else
            (case malloc e of
               None \<Rightarrow> ([Prompt, Abort ''Allocate alarm''], Aborted, rest, g)
             | Some alarm0 \<Rightarrow>
                 (case sscanf_alarm line alarm0 of
                    (n, alarm1) \<Rightarrow>
                      if n < 2 then ([Prompt, Malloc, Bad_command, Free], Running, rest, g)
                      else
                        (case mutex_lock Main_thread e g of
                           (ev, st, g1) \<Rightarrow>
                             if st \<noteq> Running then ([Prompt, Malloc] @ ev, st, rest, g1)
                             else
                               (let alarm = alarm1\<lparr>time := now e + seconds alarm1\<rparr>;
                                    ev1 = [Prompt, Malloc] @ ev @
                                          [Alarm_Recieved (now2 e) (time alarm) (message alarm)];
                                    g2 = g1\<lparr>alarm_list := insert_alarm alarm (alarm_list g1)\<rparr>
                                in case mutex_unlock e g2 of
                                     (ev', st', g3) \<Rightarrow> (ev1 @ ev', st', rest, g3))))))"

text \<open>The loop of \<^verbatim>\<open>main\<close>, one environment for each iteration.\<close>

fun main_loop ::
  "env list \<Rightarrow> string \<Rightarrow> globals \<Rightarrow> event list \<times> status \<times> string \<times> globals" where
  "main_loop [] inp g = ([], Running, inp, g)"
| "main_loop (e # es) inp g =
     (case main_iter e inp g of
        (ev, st, inp', g') \<Rightarrow>
          if st = Running
          then (case main_loop es inp' g' of (ev', r) \<Rightarrow> (ev @ ev', r))
          else (ev, st, inp', g'))"

section \<open>The two threads together\<close>

text \<open>
  The critical sections of the two threads exclude each other, and outside them a thread
  reads and writes its own variables only, but for the store to \<^verbatim>\<open>alarm_done\<close> of
  line 151. That store changes 0 to 1, once: an iteration of \<^verbatim>\<open>alarm_thread\<close> that
  has read 0 at line 96 goes on as if the store came after it, and one that reads 1
  there reads 1 again at line 102. So a run of the process is a sequence of whole
  iterations, each of one thread. \<^verbatim>\<open>err_abort\<close> and a fault end the whole
  process; a thread that has exited or waits for the mutex takes no further step. The
  initial state is the one after \<^verbatim>\<open>main\<close> has created \<^verbatim>\<open>alarm_thread\<close>
  (lines 137 to 140).
\<close>

record system =
  shared :: globals
  stdin :: string
  main_status :: status
  alarm_thread_status :: status
  events :: "event list"

datatype sched = Run_main env | Run_alarm_thread env

definition initial_system :: "string \<Rightarrow> system" where
  "initial_system inp =
     \<lparr>shared = initial_globals, stdin = inp, main_status = Running,
      alarm_thread_status = Running, events = []\<rparr>"

definition process_ended :: "system \<Rightarrow> bool" where
  "process_ended s =
     (main_status s \<in> {Aborted, Segfault} \<or> alarm_thread_status s \<in> {Aborted, Segfault})"

fun system_step :: "system \<Rightarrow> sched \<Rightarrow> system" where
  "system_step s (Run_main e) =
     (if process_ended s \<or> main_status s \<noteq> Running then s
      else (case main_iter e (stdin s) (shared s) of
              (ev, st, inp, g) \<Rightarrow>
                s\<lparr>shared := g, stdin := inp, main_status := st, events := events s @ ev\<rparr>))"
| "system_step s (Run_alarm_thread e) =
     (if process_ended s \<or> alarm_thread_status s \<noteq> Running then s
      else (case alarm_thread_iter e (shared s) of
              (ev, st, g) \<Rightarrow>
                s\<lparr>shared := g, alarm_thread_status := st, events := events s @ ev\<rparr>))"

definition run :: "sched list \<Rightarrow> system \<Rightarrow> system" where
  "run sch s = foldl system_step s sch"

section \<open>Observations on a trace\<close>

text \<open>The records for which a worker was started, in the order of the calls.\<close>

fun created :: "event list \<Rightarrow> alarm_t list" where
  "created [] = []"
| "created (Create_individual a # ev) = a # created ev"
| "created (_ # ev) = created ev"

text \<open>
  Every iteration of \<^verbatim>\<open>alarm_thread\<close> that gets the mutex starts with the lock, so
  the locks of its trace count its iterations.
\<close>

definition iterations :: "event list \<Rightarrow> nat" where
  "iterations ev = length (filter (\<lambda>x. x = Mutex_lock) ev)"

text \<open>The number of requests admitted: the received reports of a trace.\<close>

fun admitted :: "event list \<Rightarrow> nat" where
  "admitted [] = 0"
| "admitted (Alarm_Recieved t1 t2 m # ev) = Suc (admitted ev)"
| "admitted (_ # ev) = admitted ev"

section \<open>Properties of the insertion\<close>

lemma insert_alarm_split:
  "insert_alarm a xs =
     takeWhile (\<lambda>x. time x < time a) xs @ a # dropWhile (\<lambda>x. time x < time a) xs"
  by (induction xs) auto

lemma set_insert_alarm: "set (insert_alarm a xs) = insert a (set xs)"
  by (induction xs) auto

lemma length_insert_alarm: "length (insert_alarm a xs) = Suc (length xs)"
  by (induction xs) auto

lemma sorted_insert_alarm:
  "sorted (map time xs) \<Longrightarrow> sorted (map time (insert_alarm a xs))"
  by (induction xs) (auto simp: set_insert_alarm)

lemma sorted_foldl_insert_alarm:
  "sorted (map time ys) \<Longrightarrow> sorted (map time (foldl (\<lambda>xs a. insert_alarm a xs) ys as))"
  by (induction as arbitrary: ys) (auto simp: sorted_insert_alarm)

lemma filter_insert_alarm:
  "filter (\<lambda>x. time x = t) (insert_alarm a xs) =
     (if time a = t then a # filter (\<lambda>x. time x = t) xs else filter (\<lambda>x. time x = t) xs)"
  by (induction xs) auto

lemma filter_foldl_insert_alarm:
  "filter (\<lambda>x. time x = t) (foldl (\<lambda>xs a. insert_alarm a xs) ys as) =
     rev (filter (\<lambda>x. time x = t) as) @ filter (\<lambda>x. time x = t) ys"
  by (induction as arbitrary: ys) (auto simp: filter_insert_alarm)

lemma length_foldl_insert_alarm:
  "length (foldl (\<lambda>xs a. insert_alarm a xs) ys as) = length as + length ys"
  by (induction as arbitrary: ys) (auto simp: length_insert_alarm)

lemma sorted_tl_map: "sorted (map f xs) \<Longrightarrow> sorted (map f (tl xs))"
  by (cases xs) auto

section \<open>The registry stays sorted\<close>

lemma main_iter_list:
  assumes "main_iter e inp g = (ev, st, inp', g')"
  shows "alarm_list g' = alarm_list g \<or> (\<exists>a. alarm_list g' = insert_alarm a (alarm_list g))"
  using assms
  by (auto simp: main_iter_def Let_def mutex_lock_def mutex_unlock_def
           split: option.splits if_splits prod.splits)

lemma alarm_thread_iter_list:
  assumes "alarm_thread_iter e g = (ev, st, g')"
  shows "alarm_list g' = alarm_list g \<or> alarm_list g' = tl (alarm_list g)"
  using assms
  by (auto simp: alarm_thread_iter_def Let_def mutex_lock_def mutex_unlock_def
           split: list.splits if_splits prod.splits)

lemma system_step_sorted:
  assumes "sorted (map time (alarm_list (shared s)))"
  shows "sorted (map time (alarm_list (shared (system_step s x))))"
proof (cases x)
  case (Run_main e)
  obtain ev st inp g where r: "main_iter e (stdin s) (shared s) = (ev, st, inp, g)"
    by (metis prod_cases4)
  from main_iter_list [OF r] assms have "sorted (map time (alarm_list g))"
    by (auto simp: sorted_insert_alarm)
  with Run_main r assms show ?thesis by simp
next
  case (Run_alarm_thread e)
  obtain ev st g where r: "alarm_thread_iter e (shared s) = (ev, st, g)"
    by (metis prod_cases3)
  from alarm_thread_iter_list [OF r] assms have "sorted (map time (alarm_list g))"
    by (auto simp: sorted_tl_map)
  with Run_alarm_thread r assms show ?thesis by simp
qed

lemma run_sorted:
  "sorted (map time (alarm_list (shared s))) \<Longrightarrow>
   sorted (map time (alarm_list (shared (run sch s))))"
  unfolding run_def
  by (induction sch arbitrary: s) (auto simp: system_step_sorted)

text \<open>
  C1. Whatever the input and whatever the order in which the iterations of \<^verbatim>\<open>main\<close>
  (insertions) and of \<^verbatim>\<open>alarm_thread\<close> (removals of the head) are run, the list
  \<^verbatim>\<open>alarm_list\<close> is sorted by \<^verbatim>\<open>time\<close>, non-decreasing, between any two
  iterations, which is where the mutex is free to be taken. The insertion keeps the
  records in front of the first one whose \<^verbatim>\<open>time\<close> is at least the new record's,
  puts the new record there and the rest behind it; when there is no such record the new
  one is the last. Inserting any records, one after the other, into the empty list gives
  a sorted list.
\<close>

theorem registry_sorted:
  "sorted (map time (alarm_list (shared (run sch (initial_system inp)))))
   \<and> insert_alarm a xs =
       takeWhile (\<lambda>x. time x < time a) xs @ a # dropWhile (\<lambda>x. time x < time a) xs
   \<and> sorted (map time (foldl (\<lambda>xs a. insert_alarm a xs) [] as))"
proof (intro conjI)
  show "sorted (map time (alarm_list (shared (run sch (initial_system inp)))))"
    by (simp add: run_sorted initial_system_def initial_globals_def)
  show "insert_alarm a xs =
          takeWhile (\<lambda>x. time x < time a) xs @ a # dropWhile (\<lambda>x. time x < time a) xs"
    by (rule insert_alarm_split)
  show "sorted (map time (foldl (\<lambda>xs a. insert_alarm a xs) [] as))"
    by (simp add: sorted_foldl_insert_alarm)
qed

theorem registry_sorted_witness:
  "alarm_list (shared (run [Run_main (env_at 100), Run_main (env_at 100)]
     (initial_system (''10 first'' @ [CHR 0x0A] @ ''3 second'' @ [CHR 0x0A]))))
   = [\<lparr>seconds = 3, time = 103, message = ''second''\<rparr>,
      \<lparr>seconds = 10, time = 110, message = ''first''\<rparr>]
   \<and> sorted (map time (alarm_list (shared (run [Run_main (env_at 100), Run_main (env_at 100)]
     (initial_system (''10 first'' @ [CHR 0x0A] @ ''3 second'' @ [CHR 0x0A]))))))
   \<and> insert_alarm \<lparr>seconds = 3, time = 103, message = ''second''\<rparr>
        [\<lparr>seconds = 10, time = 110, message = ''first''\<rparr>]
      = [\<lparr>seconds = 3, time = 103, message = ''second''\<rparr>,
         \<lparr>seconds = 10, time = 110, message = ''first''\<rparr>]"
proof -
  have "alarm_list (shared (run [Run_main (env_at 100), Run_main (env_at 100)]
     (initial_system (''10 first'' @ [CHR 0x0A] @ ''3 second'' @ [CHR 0x0A]))))
   = [\<lparr>seconds = 3, time = 103, message = ''second''\<rparr>,
      \<lparr>seconds = 10, time = 110, message = ''first''\<rparr>]"
    by code_simp
  then show ?thesis
    using registry_sorted [of "[Run_main (env_at 100), Run_main (env_at 100)]"
      "''10 first'' @ [CHR 0x0A] @ ''3 second'' @ [CHR 0x0A]"
      "\<lparr>seconds = 3, time = 103, message = ''second''\<rparr>"
      "[\<lparr>seconds = 10, time = 110, message = ''first''\<rparr>]"]
    by simp
qed

section \<open>The worker\<close>

text \<open>
  C5. An iteration of \<^verbatim>\<open>individual_alarm_thread\<close> starts from the value \<open>t\<close> of
  \<^verbatim>\<open>time (NULL)\<close>. When \<^verbatim>\<open>alarm->time <= t\<close> it prints the expired report with
  \<open>t\<close>, \<^verbatim>\<open>alarm->time\<close> and the message, frees the record and exits, and nothing
  else. Otherwise it prints the tick report with \<^verbatim>\<open>alarm->time\<close> and the message,
  sleeps one second and goes on with the next iteration. So a record whose delay was zero
  or negative (its \<^verbatim>\<open>time\<close> is \<open>t0 + seconds\<close> for an earlier clock value
  \<open>t0\<close>) is reported expired by the first iteration, with no tick and no sleep.
\<close>

theorem individual_alarm_thread_iteration:
  "(time alarm \<le> t \<longrightarrow>
      individual_alarm_thread (t # ts) alarm =
        ([Alarm_Expired t (time alarm) (message alarm), Free, Pthread_exit], Exited))
   \<and> (t < time alarm \<longrightarrow>
      individual_alarm_thread (t # ts) alarm =
        ([Alarm_Tick (time alarm) (message alarm), Sleep 1]
           @ fst (individual_alarm_thread ts alarm),
         snd (individual_alarm_thread ts alarm)))
   \<and> (seconds alarm \<le> 0 \<and> time alarm = t0 + seconds alarm \<and> t0 \<le> t \<longrightarrow>
      individual_alarm_thread (t # ts) alarm =
        ([Alarm_Expired t (time alarm) (message alarm), Free, Pthread_exit], Exited))"
  by (simp add: individual_alarm_iter_def split: prod.splits)

theorem individual_alarm_thread_iteration_witness:
  "time \<lparr>seconds = 0, time = 100, message = ''due''\<rparr> \<le> 100
   \<and> individual_alarm_thread [100] \<lparr>seconds = 0, time = 100, message = ''due''\<rparr> =
       ([Alarm_Expired 100 100 ''due'', Free, Pthread_exit], Exited)
   \<and> 100 < time \<lparr>seconds = 1, time = 101, message = ''soon''\<rparr>
   \<and> individual_alarm_thread [100, 101] \<lparr>seconds = 1, time = 101, message = ''soon''\<rparr> =
       ([Alarm_Tick 101 ''soon'', Sleep 1, Alarm_Expired 101 101 ''soon'', Free, Pthread_exit],
        Exited)"
  using individual_alarm_thread_iteration
          [of "\<lparr>seconds = 0, time = 100, message = ''due''\<rparr>" 100 "[]" 100]
        individual_alarm_thread_iteration
          [of "\<lparr>seconds = 1, time = 101, message = ''soon''\<rparr>" 100 "[101]" 100]
        individual_alarm_thread_iteration
          [of "\<lparr>seconds = 1, time = 101, message = ''soon''\<rparr>" 101 "[]" 100]
  by simp

section \<open>The dispatcher\<close>

lemma created_append: "created (ev @ ev') = created ev @ created ev'"
  by (induction ev rule: created.induct) auto

lemma created_idle: "created (concat (replicate n [Mutex_lock, Mutex_unlock])) = []"
  by (induction n) auto

lemma pthread_ok_env_at: "pthread_ok (env_at t)"
  by (simp add: pthread_ok_def env_at_def)

lemma alarm_thread_iter_pop:
  assumes "alarm_mutex g = None" "pthread_ok e" "alarm_list g = a # rest"
  shows "alarm_thread_iter e g =
           ([Mutex_lock, Alarm_Retrieved (now e) (time a) (message a),
             Create_individual a, Mutex_unlock], Running, g\<lparr>alarm_list := rest\<rparr>)"
  using assms
  by (simp add: alarm_thread_iter_def mutex_lock_def mutex_unlock_def pthread_ok_def)

lemma alarm_thread_iter_idle:
  assumes "alarm_mutex g = None" "pthread_ok e" "alarm_list g = []" "alarm_done g = 0"
  shows "alarm_thread_iter e g = ([Mutex_lock, Mutex_unlock], Running, g)"
  using assms
  by (simp add: alarm_thread_iter_def mutex_lock_def mutex_unlock_def pthread_ok_def)

lemma alarm_thread_iter_exit:
  assumes "alarm_mutex g = None" "lock_status e = 0" "alarm_list g = []" "alarm_done g = 1"
  shows "alarm_thread_iter e g =
           ([Mutex_lock, Pthread_exit], Exited, g\<lparr>alarm_mutex := Some Alarm_thread\<rparr>)"
  using assms
  by (simp add: alarm_thread_iter_def mutex_lock_def)

text \<open>
  C7. With the mutex taken, an iteration of \<^verbatim>\<open>alarm_thread\<close> that finds
  \<^verbatim>\<open>alarm_list\<close> empty starts no worker and leaves the list empty. One that finds a
  record at the head prints the retrieved report, takes that record off the list and
  starts a worker for it, whatever \<^verbatim>\<open>time (NULL)\<close> is: the record's
  \<^verbatim>\<open>time\<close> is not compared with it. In a sorted list no record is due before the
  head.
\<close>

theorem pop_ready:
  assumes "alarm_mutex g = None" "pthread_ok e"
  shows "(alarm_list g = [] \<longrightarrow>
            created (fst (alarm_thread_iter e g)) = []
            \<and> alarm_list (snd (snd (alarm_thread_iter e g))) = [])
       \<and> (\<forall>a rest. alarm_list g = a # rest \<longrightarrow>
            alarm_thread_iter e g =
              ([Mutex_lock, Alarm_Retrieved (now e) (time a) (message a),
                Create_individual a, Mutex_unlock], Running, g\<lparr>alarm_list := rest\<rparr>)
            \<and> (sorted (map time (alarm_list g)) \<longrightarrow>
                 (\<forall>x\<in>set (alarm_list g). time a \<le> time x)))"
proof -
  have "created (fst (alarm_thread_iter e g)) = []
        \<and> alarm_list (snd (snd (alarm_thread_iter e g))) = []" if "alarm_list g = []"
    using that assms
    by (simp add: alarm_thread_iter_def mutex_lock_def mutex_unlock_def pthread_ok_def)
  moreover have "\<forall>x\<in>set (alarm_list g). time a \<le> time x"
    if "alarm_list g = a # rest" "sorted (map time (alarm_list g))" for a rest
    using that by auto
  ultimately show ?thesis
    using assms by (auto simp: alarm_thread_iter_pop)
qed

theorem pop_ready_witness:
  "alarm_mutex \<lparr>alarm_list = [\<lparr>seconds = 60, time = 160, message = ''later''\<rparr>],
                alarm_done = 0, alarm_mutex = None\<rparr> = None
   \<and> pthread_ok (env_at 100)
   \<and> now (env_at 100) < time \<lparr>seconds = 60, time = 160, message = ''later''\<rparr>
   \<and> alarm_thread_iter (env_at 100)
        \<lparr>alarm_list = [\<lparr>seconds = 60, time = 160, message = ''later''\<rparr>],
         alarm_done = 0, alarm_mutex = None\<rparr>
     = ([Mutex_lock, Alarm_Retrieved 100 160 ''later'',
         Create_individual \<lparr>seconds = 60, time = 160, message = ''later''\<rparr>, Mutex_unlock],
        Running, \<lparr>alarm_list = [], alarm_done = 0, alarm_mutex = None\<rparr>)
   \<and> created (fst (alarm_thread_iter (env_at 100) initial_globals)) = []"
proof -
  have 1: "pthread_ok (env_at 100)" by (rule pthread_ok_env_at)
  have 2: "alarm_mutex initial_globals = None" by (simp add: initial_globals_def)
  from pop_ready [OF _ 1, of "\<lparr>alarm_list = [\<lparr>seconds = 60, time = 160, message = ''later''\<rparr>],
                alarm_done = 0, alarm_mutex = None\<rparr>"]
       pop_ready [OF 2 1] 1
  show ?thesis by (simp add: env_at_def initial_globals_def)
qed

text \<open>
  C3. The claim: an iteration of the dispatcher that finds the list empty while
  \<^verbatim>\<open>alarm_done\<close> is 0 suspends for about a second before the next one. The code
  assigns \<^verbatim>\<open>sleep_time = 1\<close> in that branch and never calls \<^verbatim>\<open>sleep\<close>: three
  iterations on the empty list with \<^verbatim>\<open>alarm_done == 0\<close> lock and unlock the mutex
  three times and do nothing else.
\<close>

theorem alarm_thread_idle_without_sleep:
  "alarm_thread [env_at 100, env_at 100, env_at 100] initial_globals
     = ([Mutex_lock, Mutex_unlock, Mutex_lock, Mutex_unlock, Mutex_lock, Mutex_unlock],
        Running, initial_globals)"
  by code_simp

text \<open>
  C10. The iteration of \<^verbatim>\<open>alarm_thread\<close> that finds the list empty and
  \<^verbatim>\<open>alarm_done == 1\<close> exits with the mutex: an iteration that ends in
  \<^verbatim>\<open>pthread_exit\<close> leaves \<^verbatim>\<open>alarm_mutex\<close> owned by the thread, has no unlock in
  its trace, and no later \<^verbatim>\<open>pthread_mutex_lock\<close>, by any thread, gets the mutex. An iteration
  after which the loop goes on has unlocked the mutex as its last action.
\<close>

theorem alarm_thread_exits_locked:
  "(alarm_mutex g = None \<and> lock_status e = 0 \<and> alarm_list g = [] \<and> alarm_done g = 1 \<longrightarrow>
      alarm_thread_iter e g =
        ([Mutex_lock, Pthread_exit], Exited, g\<lparr>alarm_mutex := Some Alarm_thread\<rparr>))
   \<and> (fst (snd (alarm_thread_iter e g)) = Exited \<longrightarrow>
        alarm_mutex (snd (snd (alarm_thread_iter e g))) = Some Alarm_thread
        \<and> Mutex_unlock \<notin> set (fst (alarm_thread_iter e g))
        \<and> (\<forall>t e'. fst (snd (mutex_lock t e' (snd (snd (alarm_thread_iter e g))))) \<noteq> Running))
   \<and> (fst (snd (alarm_thread_iter e g)) = Running \<longrightarrow>
        alarm_mutex (snd (snd (alarm_thread_iter e g))) = None
        \<and> last (fst (alarm_thread_iter e g)) = Mutex_unlock)"
  by (auto simp: alarm_thread_iter_def mutex_lock_def mutex_unlock_def Let_def
           split: list.splits if_splits)

theorem alarm_thread_exits_locked_witness:
  "alarm_thread_iter (env_at 100) \<lparr>alarm_list = [], alarm_done = 1, alarm_mutex = None\<rparr>
     = ([Mutex_lock, Pthread_exit], Exited,
        \<lparr>alarm_list = [], alarm_done = 1, alarm_mutex = Some Alarm_thread\<rparr>)
   \<and> fst (snd (mutex_lock Main_thread (env_at 101)
        \<lparr>alarm_list = [], alarm_done = 1, alarm_mutex = Some Alarm_thread\<rparr>)) = Blocked
   \<and> alarm_thread_iter (env_at 100) initial_globals
     = ([Mutex_lock, Mutex_unlock], Running, initial_globals)"
proof -
  have 1: "alarm_thread_iter (env_at 100) initial_globals
     = ([Mutex_lock, Mutex_unlock], Running, initial_globals)"
    by (simp add: alarm_thread_iter_def mutex_lock_def mutex_unlock_def env_at_def
          initial_globals_def)
  have 2: "fst (snd (mutex_lock Main_thread (env_at 101)
        \<lparr>alarm_list = [], alarm_done = 1, alarm_mutex = Some Alarm_thread\<rparr>)) = Blocked"
    by (simp add: mutex_lock_def env_at_def)
  from alarm_thread_exits_locked
         [of "\<lparr>alarm_list = [], alarm_done = 1, alarm_mutex = None\<rparr>" "env_at 100"] 1 2
  show ?thesis by (simp add: env_at_def)
qed

section \<open>The dispatcher's exit\<close>

lemma alarm_thread_drain:
  assumes "alarm_done g = 1" "alarm_mutex g = None" "\<forall>e\<in>set es. pthread_ok e"
    "length (alarm_list g) < length es"
  shows "\<exists>ev. alarm_thread es g =
                (ev, Exited, g\<lparr>alarm_list := [], alarm_mutex := Some Alarm_thread\<rparr>)
              \<and> created ev = alarm_list g
              \<and> iterations ev = Suc (length (alarm_list g))
              \<and> (\<forall>n. Sleep n \<notin> set ev)"
  using assms
proof (induction es arbitrary: g)
  case Nil
  then show ?case by simp
next
  case (Cons e es)
  then have ok: "pthread_ok e" by simp
  show ?case
  proof (cases "alarm_list g")
    case Nil
    with Cons.prems ok show ?thesis
      by (simp add: alarm_thread_iter_exit pthread_ok_def iterations_def)
  next
    case (Cons a rest)
    let ?g = "g\<lparr>alarm_list := rest\<rparr>"
    from Cons Cons.prems
    have "\<exists>ev. alarm_thread es ?g =
                (ev, Exited, ?g\<lparr>alarm_list := [], alarm_mutex := Some Alarm_thread\<rparr>)
              \<and> created ev = alarm_list ?g
              \<and> iterations ev = Suc (length (alarm_list ?g))
              \<and> (\<forall>n. Sleep n \<notin> set ev)"
      by (intro Cons.IH) auto
    then obtain ev where ev: "alarm_thread es ?g =
                (ev, Exited, g\<lparr>alarm_list := [], alarm_mutex := Some Alarm_thread\<rparr>)"
      "created ev = rest" "iterations ev = Suc (length rest)" "\<forall>n. Sleep n \<notin> set ev"
      by auto
    with Cons Cons.prems ok show ?thesis
      by (simp add: alarm_thread_iter_pop iterations_def)
  qed
qed

lemma run_append: "run (a @ b) s = run b (run a s)"
  by (simp add: run_def)

lemma run_idle:
  assumes "\<forall>e\<in>set es. pthread_ok e" "shared s = initial_globals"
    "main_status s = Running" "alarm_thread_status s = Running"
  shows "run (map Run_alarm_thread es) s =
           s\<lparr>events := events s @ concat (replicate (length es) [Mutex_lock, Mutex_unlock])\<rparr>"
  using assms
proof (induction es arbitrary: s)
  case Nil
  then show ?case by (simp add: run_def)
next
  case (Cons e es)
  let ?s = "s\<lparr>events := events s @ [Mutex_lock, Mutex_unlock]\<rparr>"
  from Cons.prems
  have "alarm_thread_iter e (shared s) = ([Mutex_lock, Mutex_unlock], Running, shared s)"
    by (intro alarm_thread_iter_idle) (auto simp: initial_globals_def)
  with Cons.prems have step: "system_step s (Run_alarm_thread e) = ?s"
    by (simp add: process_ended_def)
  have "run (map Run_alarm_thread es) ?s =
          ?s\<lparr>events := events ?s @ concat (replicate (length es) [Mutex_lock, Mutex_unlock])\<rparr>"
    using Cons.prems by (intro Cons.IH) auto
  with step show ?case by (simp add: run_def)
qed

lemma run_no_alarms:
  assumes "\<forall>e\<in>set es. pthread_ok e" "lock_status e2 = 0"
  shows "run (map Run_alarm_thread es @ [Run_main e1, Run_alarm_thread e2]) (initial_system []) =
           \<lparr>shared = \<lparr>alarm_list = [], alarm_done = 1, alarm_mutex = Some Alarm_thread\<rparr>,
            stdin = [], main_status = Exited, alarm_thread_status = Exited,
            events = concat (replicate (length es) [Mutex_lock, Mutex_unlock])
                     @ [Prompt, Pthread_exit, Mutex_lock, Pthread_exit]\<rparr>"
proof -
  have "run (map Run_alarm_thread es) (initial_system []) =
          (initial_system [])\<lparr>events := events (initial_system [])
             @ concat (replicate (length es) [Mutex_lock, Mutex_unlock])\<rparr>"
    using assms by (intro run_idle) (auto simp: initial_system_def)
  then show ?thesis
    using assms(2)
    by (simp add: run_append,
        simp add: run_def initial_system_def initial_globals_def process_ended_def
          main_iter_def fgets_def alarm_thread_iter_def mutex_lock_def)
qed

lemma admitted_append: "admitted (ev @ ev') = admitted ev + admitted ev'"
  by (induction ev rule: admitted.induct) auto

lemma main_iter_admitted:
  assumes "main_iter e inp g = (ev, st, inp', g')"
  shows "created ev = [] \<and> length (alarm_list g') = length (alarm_list g) + admitted ev"
  using assms
  by (auto simp: main_iter_def Let_def mutex_lock_def mutex_unlock_def length_insert_alarm
           split: option.splits if_splits prod.splits)

lemma alarm_thread_iter_admitted:
  assumes "alarm_thread_iter e g = (ev, st, g')"
  shows "admitted ev = 0 \<and> length (created ev) + length (alarm_list g') \<le> length (alarm_list g)"
  using assms
  by (auto simp: alarm_thread_iter_def Let_def mutex_lock_def mutex_unlock_def
           split: list.splits if_splits prod.splits)

lemma system_step_admitted:
  assumes "length (created (events s)) + length (alarm_list (shared s)) \<le> admitted (events s)"
  shows "length (created (events (system_step s x)))
           + length (alarm_list (shared (system_step s x))) \<le> admitted (events (system_step s x))"
proof (cases x)
  case (Run_main e)
  obtain ev st inp g where r: "main_iter e (stdin s) (shared s) = (ev, st, inp, g)"
    by (metis prod_cases4)
  from main_iter_admitted [OF r] assms Run_main r show ?thesis
    by (simp add: created_append admitted_append)
next
  case (Run_alarm_thread e)
  obtain ev st g where r: "alarm_thread_iter e (shared s) = (ev, st, g)"
    by (metis prod_cases3)
  from alarm_thread_iter_admitted [OF r] assms Run_alarm_thread r show ?thesis
    by (simp add: created_append admitted_append)
qed

lemma run_admitted:
  "length (created (events s)) + length (alarm_list (shared s)) \<le> admitted (events s) \<Longrightarrow>
   length (created (events (run sch s))) + length (alarm_list (shared (run sch s)))
     \<le> admitted (events (run sch s))"
  unfolding run_def
  by (induction sch arbitrary: s) (auto simp: system_step_admitted)

lemma run_initial_admitted:
  "length (created (events (run sch (initial_system inp))))
     \<le> admitted (events (run sch (initial_system inp)))"
  using run_admitted [of "initial_system inp" sch]
  by (simp add: initial_system_def initial_globals_def)

text \<open>
  C6. Once \<^verbatim>\<open>alarm_done\<close> is 1, the loop of \<^verbatim>\<open>alarm_thread\<close>, started with the
  mutex free and with no pthread error, exits: it starts a worker for each record of the
  list, in list order, and the next iteration, which finds the list empty, calls
  \<^verbatim>\<open>pthread_exit\<close>. That is one iteration more than the list has records, none of
  them idle, and none sleeps. On an input that is empty from the start, any number of
  idle iterations, the iteration of \<^verbatim>\<open>main\<close> that meets the end of the input and
  one more iteration of \<^verbatim>\<open>alarm_thread\<close> end the thread, and no worker was started.
  In any run, on any input, in which no request was admitted, no worker is started.
\<close>

theorem alarm_thread_terminates:
  "(alarm_done g = 1 \<and> alarm_mutex g = None \<and> (\<forall>e\<in>set es. pthread_ok e)
      \<and> length (alarm_list g) < length es \<longrightarrow>
      (\<exists>ev. alarm_thread es g =
              (ev, Exited, g\<lparr>alarm_list := [], alarm_mutex := Some Alarm_thread\<rparr>)
            \<and> created ev = alarm_list g
            \<and> iterations ev = Suc (length (alarm_list g))
            \<and> (\<forall>n. Sleep n \<notin> set ev)))
   \<and> ((\<forall>e\<in>set es. pthread_ok e) \<and> lock_status e2 = 0 \<longrightarrow>
      alarm_thread_status
        (run (map Run_alarm_thread es @ [Run_main e1, Run_alarm_thread e2]) (initial_system []))
        = Exited
      \<and> created (events
          (run (map Run_alarm_thread es @ [Run_main e1, Run_alarm_thread e2]) (initial_system [])))
        = [])
   \<and> (admitted (events (run sch (initial_system inp))) = 0 \<longrightarrow>
        created (events (run sch (initial_system inp))) = [])"
proof -
  have "created (events (run sch (initial_system inp))) = []"
    if "admitted (events (run sch (initial_system inp))) = 0"
    using that run_initial_admitted [of sch inp] by simp
  with alarm_thread_drain [of g es] show ?thesis
    by (simp add: run_no_alarms created_append created_idle)
qed

theorem alarm_thread_terminates_witness:
  "alarm_thread [env_at 100, env_at 101]
     \<lparr>alarm_list = [\<lparr>seconds = 60, time = 160, message = ''later''\<rparr>],
      alarm_done = 1, alarm_mutex = None\<rparr>
     = ([Mutex_lock, Alarm_Retrieved 100 160 ''later'',
         Create_individual \<lparr>seconds = 60, time = 160, message = ''later''\<rparr>, Mutex_unlock,
         Mutex_lock, Pthread_exit],
        Exited, \<lparr>alarm_list = [], alarm_done = 1, alarm_mutex = Some Alarm_thread\<rparr>)
   \<and> alarm_thread_status
        (run (map Run_alarm_thread [env_at 100, env_at 101]
              @ [Run_main (env_at 102), Run_alarm_thread (env_at 102)]) (initial_system []))
        = Exited
   \<and> created (events
        (run (map Run_alarm_thread [env_at 100, env_at 101]
              @ [Run_main (env_at 102), Run_alarm_thread (env_at 102)]) (initial_system [])))
        = []
   \<and> admitted (events (run [Run_main (env_at 100), Run_alarm_thread (env_at 100)]
        (initial_system (''abc'' @ [CHR 0x0A])))) = 0
   \<and> created (events (run [Run_main (env_at 100), Run_alarm_thread (env_at 100)]
        (initial_system (''abc'' @ [CHR 0x0A])))) = []"
proof -
  have 2: "admitted (events (run [Run_main (env_at 100), Run_alarm_thread (env_at 100)]
        (initial_system (''abc'' @ [CHR 0x0A])))) = 0"
    by code_simp
  have 1: "alarm_thread [env_at 100, env_at 101]
     \<lparr>alarm_list = [\<lparr>seconds = 60, time = 160, message = ''later''\<rparr>],
      alarm_done = 1, alarm_mutex = None\<rparr>
     = ([Mutex_lock, Alarm_Retrieved 100 160 ''later'',
         Create_individual \<lparr>seconds = 60, time = 160, message = ''later''\<rparr>, Mutex_unlock,
         Mutex_lock, Pthread_exit],
        Exited, \<lparr>alarm_list = [], alarm_done = 1, alarm_mutex = Some Alarm_thread\<rparr>)"
    by code_simp
  from alarm_thread_terminates
         [of "\<lparr>alarm_list = [\<lparr>seconds = 60, time = 160, message = ''later''\<rparr>],
               alarm_done = 1, alarm_mutex = None\<rparr>"
             "[env_at 100, env_at 101]" "env_at 102" "env_at 102"
             "[Run_main (env_at 100), Run_alarm_thread (env_at 100)]" "''abc'' @ [CHR 0x0A]"]
       pthread_ok_env_at 1 2
  show ?thesis by (simp add: pthread_ok_def)
qed

section \<open>Records with equal times\<close>

text \<open>
  C2, as the code has it. The insertion stops at the first record whose \<^verbatim>\<open>time\<close> is
  at least the new record's, so the new record goes in front of every record of the list
  with the same \<^verbatim>\<open>time\<close>. After a sequence of insertions into the empty list the
  records with one \<^verbatim>\<open>time\<close> stand in the reverse of their insertion order, and
  \<^verbatim>\<open>alarm_thread\<close>, which takes the head each time, starts their workers in that
  reverse order.
\<close>

theorem equal_time_newest_first:
  "filter (\<lambda>x. time x = time a) (insert_alarm a xs) = a # filter (\<lambda>x. time x = time a) xs
   \<and> filter (\<lambda>x. time x = t) (foldl (\<lambda>xs a. insert_alarm a xs) [] as)
       = rev (filter (\<lambda>x. time x = t) as)
   \<and> (alarm_done g = 1 \<and> alarm_mutex g = None \<and> (\<forall>e\<in>set es. pthread_ok e)
        \<and> length as < length es \<and> alarm_list g = foldl (\<lambda>xs a. insert_alarm a xs) [] as \<longrightarrow>
        filter (\<lambda>x. time x = t) (created (fst (alarm_thread es g)))
          = rev (filter (\<lambda>x. time x = t) as))"
proof -
  have "filter (\<lambda>x. time x = t) (created (fst (alarm_thread es g)))
          = rev (filter (\<lambda>x. time x = t) as)"
    if "alarm_done g = 1" "alarm_mutex g = None" "\<forall>e\<in>set es. pthread_ok e"
       "length as < length es" "alarm_list g = foldl (\<lambda>xs a. insert_alarm a xs) [] as"
  proof -
    from that have "length (alarm_list g) < length es"
      by (simp add: length_foldl_insert_alarm)
    from alarm_thread_drain [OF that(1-3) this] that(5)
    show ?thesis by (auto simp: filter_foldl_insert_alarm)
  qed
  then show ?thesis
    by (simp add: filter_insert_alarm filter_foldl_insert_alarm)
qed

theorem equal_time_newest_first_witness:
  "filter (\<lambda>x. time x = 105)
     (foldl (\<lambda>xs a. insert_alarm a xs) []
        [\<lparr>seconds = 5, time = 105, message = ''first''\<rparr>,
         \<lparr>seconds = 5, time = 105, message = ''second''\<rparr>])
     = [\<lparr>seconds = 5, time = 105, message = ''second''\<rparr>,
        \<lparr>seconds = 5, time = 105, message = ''first''\<rparr>]
   \<and> created (fst (alarm_thread [env_at 100, env_at 100, env_at 100]
        \<lparr>alarm_list = [\<lparr>seconds = 5, time = 105, message = ''second''\<rparr>,
                       \<lparr>seconds = 5, time = 105, message = ''first''\<rparr>],
         alarm_done = 1, alarm_mutex = None\<rparr>))
     = [\<lparr>seconds = 5, time = 105, message = ''second''\<rparr>,
        \<lparr>seconds = 5, time = 105, message = ''first''\<rparr>]"
proof -
  have 1: "created (fst (alarm_thread [env_at 100, env_at 100, env_at 100]
        \<lparr>alarm_list = [\<lparr>seconds = 5, time = 105, message = ''second''\<rparr>,
                       \<lparr>seconds = 5, time = 105, message = ''first''\<rparr>],
         alarm_done = 1, alarm_mutex = None\<rparr>))
     = [\<lparr>seconds = 5, time = 105, message = ''second''\<rparr>,
        \<lparr>seconds = 5, time = 105, message = ''first''\<rparr>]"
    by code_simp
  from equal_time_newest_first
    [of "\<lparr>seconds = 5, time = 105, message = ''second''\<rparr>"
        "[\<lparr>seconds = 5, time = 105, message = ''first''\<rparr>]" 105
        "[\<lparr>seconds = 5, time = 105, message = ''first''\<rparr>,
          \<lparr>seconds = 5, time = 105, message = ''second''\<rparr>]"
        "\<lparr>alarm_list = [\<lparr>seconds = 5, time = 105, message = ''second''\<rparr>,
                       \<lparr>seconds = 5, time = 105, message = ''first''\<rparr>],
         alarm_done = 1, alarm_mutex = None\<rparr>"
        "[env_at 100, env_at 100, env_at 100]"] pthread_ok_env_at 1
  show ?thesis by simp
qed

text \<open>
  C2, as the claim has it: of two records inserted with equal \<^verbatim>\<open>time\<close>, the first
  inserted stands earlier and is dispatched first. The lines \<^verbatim>\<open>5 first\<close> and
  \<^verbatim>\<open>5 second\<close>, both read while \<^verbatim>\<open>time (NULL)\<close> is 100, leave the list with
  \<^verbatim>\<open>second\<close> in front of \<^verbatim>\<open>first\<close>, and two iterations of
  \<^verbatim>\<open>alarm_thread\<close> start the worker of \<^verbatim>\<open>second\<close> before that of
  \<^verbatim>\<open>first\<close>.
\<close>

theorem equal_time_insertion_order_counterexample:
  "alarm_list (shared (run [Run_main (env_at 100), Run_main (env_at 100)]
     (initial_system (''5 first'' @ [CHR 0x0A] @ ''5 second'' @ [CHR 0x0A]))))
     = [\<lparr>seconds = 5, time = 105, message = ''second''\<rparr>,
        \<lparr>seconds = 5, time = 105, message = ''first''\<rparr>]
   \<and> created (events (run [Run_main (env_at 100), Run_main (env_at 100),
                            Run_alarm_thread (env_at 100), Run_alarm_thread (env_at 100)]
     (initial_system (''5 first'' @ [CHR 0x0A] @ ''5 second'' @ [CHR 0x0A]))))
     = [\<lparr>seconds = 5, time = 105, message = ''second''\<rparr>,
        \<lparr>seconds = 5, time = 105, message = ''first''\<rparr>]"
  by code_simp

section \<open>The ingestion loop\<close>

lemma fgets_chars_line:
  "newline \<notin> set l \<Longrightarrow> length l < n \<Longrightarrow>
   fgets_chars n (l @ newline # rest) = (l @ [newline], rest)"
proof (induction l arbitrary: n)
  case Nil
  then show ?case by (cases n) auto
next
  case (Cons c l)
  then show ?case by (cases n) auto
qed

lemma fgets_chars_last:
  "newline \<notin> set l \<Longrightarrow> length l \<le> n \<Longrightarrow> fgets_chars n l = (l, [])"
proof (induction l arbitrary: n)
  case Nil
  then show ?case by (cases n) auto
next
  case (Cons c l)
  then show ?case by (cases n) auto
qed

lemma fgets_line:
  "newline \<notin> set l \<Longrightarrow> length l \<le> 126 \<Longrightarrow>
   fgets 128 (l @ newline # rest) = Some (l @ [newline], rest)"
  by (simp add: fgets_def fgets_chars_line)

lemma fgets_last:
  "newline \<notin> set l \<Longrightarrow> l \<noteq> [] \<Longrightarrow> length l \<le> 127 \<Longrightarrow> fgets 128 l = Some (l, [])"
  by (simp add: fgets_def fgets_chars_last)

lemma c_str_no_nul: "nul \<notin> set l \<Longrightarrow> c_str l = l"
  unfolding c_str_def by (induction l) auto

lemma strlen_no_nul: "nul \<notin> set l \<Longrightarrow> strlen l = length l"
  by (simp add: strlen_def c_str_no_nul)

lemma strlen_line: "nul \<notin> set l \<Longrightarrow> strlen (l @ [newline]) = Suc (length l)"
proof -
  assume "nul \<notin> set l"
  then have "nul \<notin> set (l @ [newline])"
    by (simp add: nul_def newline_def)
  then have "strlen (l @ [newline]) = length (l @ [newline])"
    by (rule strlen_no_nul)
  then show ?thesis by simp
qed

text \<open>
  What an iteration of \<^verbatim>\<open>main\<close> does with the characters that one call of
  \<^verbatim>\<open>fgets\<close> returned, when they do not go on to the insertion.
\<close>

lemma main_iter_chunk:
  assumes "fgets 128 inp = Some (line, rest)"
  shows "1 < strlen line \<Longrightarrow> malloc e = Some alarm0 \<Longrightarrow> fst (sscanf_alarm line alarm0) < 2 \<Longrightarrow>
           main_iter e inp g = ([Prompt, Malloc, Bad_command, Free], Running, rest, g)"
    and "1 < strlen line \<Longrightarrow> malloc e = None \<Longrightarrow>
           main_iter e inp g = ([Prompt, Abort ''Allocate alarm''], Aborted, rest, g)"
    and "strlen line \<le> 1 \<Longrightarrow> main_iter e inp g = ([Prompt], Running, rest, g)"
proof -
  show "main_iter e inp g = ([Prompt, Malloc, Bad_command, Free], Running, rest, g)"
    if "1 < strlen line" "malloc e = Some alarm0" "fst (sscanf_alarm line alarm0) < 2"
  proof -
    obtain n alarm1 where "sscanf_alarm line alarm0 = (n, alarm1)"
      by (cases "sscanf_alarm line alarm0")
    with assms that show ?thesis
      by (simp add: main_iter_def)
  qed
  show "main_iter e inp g = ([Prompt, Abort ''Allocate alarm''], Aborted, rest, g)"
    if "1 < strlen line" "malloc e = None"
    using assms that by (simp add: main_iter_def)
  show "main_iter e inp g = ([Prompt], Running, rest, g)" if "strlen line \<le> 1"
    using assms that by (simp add: main_iter_def)
qed

text \<open>
  The bounds of C8 below are needed. A line of more than 127 bytes is read in pieces:
  of the 135 bytes \<^verbatim>\<open>x\<close>, 126 blanks, \<^verbatim>\<open>5 hello\<close> and the newline, the first
  127 get the diagnostic and the rest, \<^verbatim>\<open>5 hello\<close>, is admitted as a request. A
  line that starts with a NUL byte is an empty C string and is skipped.
\<close>

lemma long_line_read_in_pieces:
  "main_loop [env_at 100, env_at 100]
     (''x'' @ replicate 126 (CHR '' '') @ ''5 hello'' @ [CHR 0x0A]) initial_globals
   = ([Prompt, Malloc, Bad_command, Free,
       Prompt, Malloc, Mutex_lock, Alarm_Recieved 100 105 ''hello'', Mutex_unlock],
      Running, [],
      \<lparr>alarm_list = [\<lparr>seconds = 5, time = 105, message = ''hello''\<rparr>],
       alarm_done = 0, alarm_mutex = None\<rparr>)"
  by code_simp

lemma nul_line_skipped:
  "main_iter (env_at 100) ([CHR 0x00] @ ''abc'' @ [CHR 0x0A]) initial_globals
   = ([Prompt], Running, [], initial_globals)"
  by code_simp

text \<open>
  C8, as the code has it. Take an input line with no NUL byte that one call of
  \<^verbatim>\<open>fgets\<close> reads whole: \<open>l\<close> and its newline, at most 127 bytes together, or
  the last line \<open>l\<close> of at most 127 bytes with no newline before the end of the input.
  When the line has more than one byte (the newline counted) and \<^verbatim>\<open>sscanf\<close>
  stores fewer than two fields from it, the iteration of \<^verbatim>\<open>main\<close> prints the
  prompt, allocates a record, prints \<^verbatim>\<open>Bad command\<close> and frees the record: the
  globals are what they were, and the loop goes on with the input behind the line. That
  is so when \<^verbatim>\<open>malloc\<close> returns a record; when it returns \<^verbatim>\<open>NULL\<close> the
  process is aborted before the line is parsed, the globals unchanged. A line of one
  byte, that is the empty line or a single character at the end of the input, is skipped
  after the prompt, with no diagnostic.
\<close>

theorem bad_command_discarded:
  assumes "newline \<notin> set l" "nul \<notin> set l"
  shows "(l \<noteq> [] \<and> length l \<le> 126 \<and> malloc e = Some alarm0
            \<and> fst (sscanf_alarm (l @ [newline]) alarm0) < 2 \<longrightarrow>
            main_iter e (l @ newline # rest) g
              = ([Prompt, Malloc, Bad_command, Free], Running, rest, g)
            \<and> main_loop (e # es) (l @ newline # rest) g =
                ([Prompt, Malloc, Bad_command, Free] @ fst (main_loop es rest g),
                 snd (main_loop es rest g)))
       \<and> (2 \<le> length l \<and> length l \<le> 127 \<and> malloc e = Some alarm0
            \<and> fst (sscanf_alarm l alarm0) < 2 \<longrightarrow>
            main_iter e l g = ([Prompt, Malloc, Bad_command, Free], Running, [], g))
       \<and> (l \<noteq> [] \<and> length l \<le> 126 \<and> malloc e = None \<longrightarrow>
            main_iter e (l @ newline # rest) g
              = ([Prompt, Abort ''Allocate alarm''], Aborted, rest, g))
       \<and> (2 \<le> length l \<and> length l \<le> 127 \<and> malloc e = None \<longrightarrow>
            main_iter e l g = ([Prompt, Abort ''Allocate alarm''], Aborted, [], g))
       \<and> main_iter e (newline # rest) g = ([Prompt], Running, rest, g)
       \<and> (length l = 1 \<longrightarrow> main_iter e l g = ([Prompt], Running, [], g))"
proof (intro conjI impI)
  assume h: "l \<noteq> [] \<and> length l \<le> 126 \<and> malloc e = Some alarm0
            \<and> fst (sscanf_alarm (l @ [newline]) alarm0) < 2"
  with assms have f: "fgets 128 (l @ newline # rest) = Some (l @ [newline], rest)"
    by (simp add: fgets_line)
  from h assms have "1 < strlen (l @ [newline])"
    by (simp add: strlen_line)
  with h show "main_iter e (l @ newline # rest) g
              = ([Prompt, Malloc, Bad_command, Free], Running, rest, g)"
    by (intro main_iter_chunk(1) [OF f]) auto
  then show "main_loop (e # es) (l @ newline # rest) g =
                ([Prompt, Malloc, Bad_command, Free] @ fst (main_loop es rest g),
                 snd (main_loop es rest g))"
    by (simp split: prod.splits)
next
  assume h: "2 \<le> length l \<and> length l \<le> 127 \<and> malloc e = Some alarm0
            \<and> fst (sscanf_alarm l alarm0) < 2"
  with assms have f: "fgets 128 l = Some (l, [])"
    by (intro fgets_last) auto
  from h assms have "1 < strlen l"
    by (simp add: strlen_no_nul)
  with h show "main_iter e l g = ([Prompt, Malloc, Bad_command, Free], Running, [], g)"
    by (intro main_iter_chunk(1) [OF f]) auto
next
  assume h: "l \<noteq> [] \<and> length l \<le> 126 \<and> malloc e = None"
  with assms have f: "fgets 128 (l @ newline # rest) = Some (l @ [newline], rest)"
    by (simp add: fgets_line)
  from h assms have "1 < strlen (l @ [newline])"
    by (simp add: strlen_line)
  with h show "main_iter e (l @ newline # rest) g
              = ([Prompt, Abort ''Allocate alarm''], Aborted, rest, g)"
    by (intro main_iter_chunk(2) [OF f]) auto
next
  assume h: "2 \<le> length l \<and> length l \<le> 127 \<and> malloc e = None"
  with assms have f: "fgets 128 l = Some (l, [])"
    by (intro fgets_last) auto
  from h assms have "1 < strlen l"
    by (simp add: strlen_no_nul)
  with h show "main_iter e l g = ([Prompt, Abort ''Allocate alarm''], Aborted, [], g)"
    by (intro main_iter_chunk(2) [OF f]) auto
next
  have f: "fgets 128 (newline # rest) = Some ([newline], rest)"
    using fgets_line [of "[]" rest] by simp
  have "strlen [newline] \<le> 1"
    by (simp add: strlen_def c_str_def)
  then show "main_iter e (newline # rest) g = ([Prompt], Running, rest, g)"
    by (rule main_iter_chunk(3) [OF f])
next
  assume h: "length l = 1"
  with assms have f: "fgets 128 l = Some (l, [])"
    by (intro fgets_last) auto
  from h assms have "strlen l \<le> 1"
    by (simp add: strlen_no_nul)
  then show "main_iter e l g = ([Prompt], Running, [], g)"
    by (rule main_iter_chunk(3) [OF f])
qed

theorem bad_command_discarded_witness:
  "newline \<notin> set ''abc''
   \<and> nul \<notin> set ''abc''
   \<and> malloc (env_at 100) = Some \<lparr>seconds = 0, time = 0, message = []\<rparr>
   \<and> fst (sscanf_alarm (''abc'' @ [newline]) \<lparr>seconds = 0, time = 0, message = []\<rparr>) < 2
   \<and> main_iter (env_at 100) (''abc'' @ newline # ''5 hello'' @ [newline]) initial_globals
     = ([Prompt, Malloc, Bad_command, Free], Running, ''5 hello'' @ [newline], initial_globals)
   \<and> fst (sscanf_alarm ''abc'' \<lparr>seconds = 0, time = 0, message = []\<rparr>) < 2
   \<and> main_iter (env_at 100) ''abc'' initial_globals
     = ([Prompt, Malloc, Bad_command, Free], Running, [], initial_globals)
   \<and> main_iter (env_at 100) (newline # ''5 hello'') initial_globals
     = ([Prompt], Running, ''5 hello'', initial_globals)
   \<and> newline \<notin> set ''x''
   \<and> nul \<notin> set ''x''
   \<and> main_iter (env_at 100) ''x'' initial_globals = ([Prompt], Running, [], initial_globals)"
proof -
  have 1: "newline \<notin> set ''abc''" "nul \<notin> set ''abc''"
    by (simp_all add: newline_def nul_def)
  have 2: "newline \<notin> set ''x''" "nul \<notin> set ''x''"
    by (simp_all add: newline_def nul_def)
  have 3: "malloc (env_at 100) = Some \<lparr>seconds = 0, time = 0, message = []\<rparr>"
    by (simp add: env_at_def)
  have 4: "fst (sscanf_alarm (''abc'' @ [newline]) \<lparr>seconds = 0, time = 0, message = []\<rparr>) < 2"
    by code_simp
  have 5: "fst (sscanf_alarm ''abc'' \<lparr>seconds = 0, time = 0, message = []\<rparr>) < 2"
    by code_simp
  from bad_command_discarded
         [OF 1, of "env_at 100" "\<lparr>seconds = 0, time = 0, message = []\<rparr>"
            "''5 hello'' @ [newline]" initial_globals "[]"]
       bad_command_discarded
         [OF 1, of "env_at 100" "\<lparr>seconds = 0, time = 0, message = []\<rparr>"
            "''5 hello''" initial_globals "[]"]
       bad_command_discarded
         [OF 2, of "env_at 100" "\<lparr>seconds = 0, time = 0, message = []\<rparr>"
            "[]" initial_globals "[]"] 1 2 3 4 5
  show ?thesis by simp
qed

text \<open>
  C8, as the claim has it: every line that does not parse into a delay and a message gets
  the diagnostic. The input \<^verbatim>\<open>x\<close>, one character with no newline before the end
  of the input, does not parse, and line 155 (\<^verbatim>\<open>strlen (line) <= 1\<close>) skips it: the
  iteration prints the prompt and nothing else.
\<close>

theorem one_character_line_counterexample:
  "fgets 128 ''x'' = Some (''x'', [])
   \<and> fst (sscanf_alarm ''x'' \<lparr>seconds = 0, time = 0, message = []\<rparr>) < 2
   \<and> main_iter (env_at 100) ''x'' initial_globals = ([Prompt], Running, [], initial_globals)"
  by code_simp

text \<open>
  C4. The claim: the message of a parsed request has at most 63 characters, so that it
  fits \<^verbatim>\<open>char message[64]\<close> with its terminator. The conversion is
  \<^verbatim>\<open>%64[^\n]\<close>: on the line \<^verbatim>\<open>1\<close>, a space and 64 letters \<^verbatim>\<open>a\<close> the record
  that is inserted has a message of 64 characters, and with the NUL character 65 bytes
  were written into the array of 64.
\<close>

theorem message_of_64_characters:
  "main_iter (env_at 100) (''1 '' @ replicate 64 (CHR ''a'') @ [CHR 0x0A]) initial_globals
     = ([Prompt, Malloc, Mutex_lock, Alarm_Recieved 100 101 (replicate 64 (CHR ''a'')),
         Mutex_unlock],
        Running, [],
        \<lparr>alarm_list = [\<lparr>seconds = 1, time = 101, message = replicate 64 (CHR ''a'')\<rparr>],
         alarm_done = 0, alarm_mutex = None\<rparr>)
   \<and> length (replicate 64 (CHR ''a'')) = 64
   \<and> message_size < message_bytes (replicate 64 (CHR ''a''))"
  by code_simp

text \<open>
  C9. The claim: \<^verbatim>\<open>alarm_done\<close> is written with the mutex held. On an input at its
  end the iteration of \<^verbatim>\<open>main\<close> prints the prompt, sets \<^verbatim>\<open>alarm_done\<close> to 1
  and exits: its trace has no lock, and the mutex has no owner before or after.
\<close>

theorem alarm_done_set_without_lock:
  "main_iter (env_at 100) [] initial_globals
     = ([Prompt, Pthread_exit], Exited, [],
        \<lparr>alarm_list = [], alarm_done = 1, alarm_mutex = None\<rparr>)
   \<and> alarm_mutex initial_globals = None"
  by code_simp

end
